theory Spec2Isabelle
  imports Complex_Main
begin

section \<open>Python strings\<close>

text \<open>
  A Python \<open>str\<close> is modelled as an Isabelle \<open>string\<close> (a list of characters with code
  points below 256), a \<open>bytes\<close> object likewise. The operations below are the string methods
  the proxy calls, written so that they compute.
\<close>

text \<open>\<open>s.startswith(p)\<close>.\<close>

fun startswith :: "string \<Rightarrow> string \<Rightarrow> bool" where
  "startswith s [] = True"
| "startswith [] (p # ps) = False"
| "startswith (c # cs) (p # ps) = (c = p \<and> startswith cs ps)"

text \<open>\<open>sub in s\<close>, the substring test.\<close>

fun str_contains :: "string \<Rightarrow> string \<Rightarrow> bool" where
  "str_contains sub [] = (sub = [])"
| "str_contains sub (c # cs) = (startswith (c # cs) sub \<or> str_contains sub cs)"

text \<open>
  \<open>s.split(sep, 1)\<close> for a non-empty separator: \<open>Some (a, b)\<close> when the result has the two
  parts \<open>[a, b]\<close> (cut at the first occurrence of \<open>sep\<close>), \<open>None\<close> when it is the one-element
  list \<open>[s]\<close>. The source only splits on the constants \<open>'://'\<close>, \<open>'/'\<close>, \<open>':'\<close>, \<open>': '\<close> and
  \<open>'\r\n\r\n'\<close>.
\<close>

fun split_once :: "string \<Rightarrow> string \<Rightarrow> (string \<times> string) option" where
  "split_once sep [] = None"
| "split_once sep (c # cs) =
     (if startswith (c # cs) sep then Some ([], drop (length sep) (c # cs))
      else (case split_once sep cs of
              None \<Rightarrow> None
            | Some (a, b) \<Rightarrow> Some (c # a, b)))"

text \<open>
  \<open>s.split(sep)\<close>, every occurrence. Python raises \<open>ValueError\<close> on an empty separator; the
  source passes \<open>'/'\<close> and \<open>'\r\n'\<close> only, and the model returns no parts there.
\<close>

function str_split :: "string \<Rightarrow> string \<Rightarrow> string list" where
  "str_split sep s =
     (if sep = [] then []
      else (case split_once sep s of
              None \<Rightarrow> [s]
            | Some (a, b) \<Rightarrow> a # str_split sep b))"
  by pat_completeness auto
termination
proof (relation "measure (\<lambda>(sep, s). length s)")
  show "wf (measure (\<lambda>(sep, s). length s))" by simp
next
  fix sep s :: string and x2 a b
  assume ne: "sep \<noteq> []" and sp: "split_once sep s = Some x2" and x2: "(a, b) = x2"
  have "split_once sep s = Some (a, b) \<Longrightarrow> length b < length s"
  proof (induction s arbitrary: a)
    case Nil
    then show ?case by simp
  next
    case (Cons c cs)
    show ?case
    proof (cases "startswith (c # cs) sep")
      case True
      with Cons.prems have "b = drop (length sep) (c # cs)" by simp
      with ne show ?thesis by (cases sep) simp_all
    next
      case False
      with Cons.prems obtain a' where "split_once sep cs = Some (a', b)"
        by (auto split: option.splits)
      from Cons.IH [OF this] show ?thesis by simp
    qed
  qed
  with sp x2 show "((sep, b), (sep, s)) \<in> measure (\<lambda>(sep, s). length s)" by simp
qed

declare str_split.simps [simp del]

text \<open>\<open>sep.join(parts)\<close>.\<close>

fun str_join :: "string \<Rightarrow> string list \<Rightarrow> string" where
  "str_join sep [] = []"
| "str_join sep [x] = x"
| "str_join sep (x # y # ys) = x @ sep @ str_join sep (y # ys)"

definition CR :: char where
  "CR = CHR 0x0D"

definition LF :: char where
  "LF = CHR 0x0A"

definition CRLF :: string where
  "CRLF = [CR, LF]"

subsection \<open>Character classes\<close>

definition in_range :: "char \<Rightarrow> char \<Rightarrow> char \<Rightarrow> bool" where
  "in_range lo hi c = ((of_char lo :: nat) \<le> of_char c \<and> (of_char c :: nat) \<le> of_char hi)"

text \<open>The regular expression class \<open>[a-zA-Z0-9]\<close>.\<close>

definition is_alnum :: "char \<Rightarrow> bool" where
  "is_alnum c =
     (in_range CHR ''a'' CHR ''z'' c \<or> in_range CHR ''A'' CHR ''Z'' c \<or> in_range CHR ''0'' CHR ''9'' c)"

text \<open>The class \<open>\d\<close>: below code point 256 the decimal digits are \<open>0\<close> to \<open>9\<close>.\<close>

definition is_digit :: "char \<Rightarrow> bool" where
  "is_digit c = in_range CHR ''0'' CHR ''9'' c"

text \<open>
  The characters \<open>int\<close> and \<open>float\<close> strip from both ends of their argument: tab, line feed,
  vertical tab, form feed, carriage return, space, and (below code point 256) the two
  non-ASCII spaces U+0085 and U+00A0.
\<close>

definition is_space :: "char \<Rightarrow> bool" where
  "is_space c = ((of_char c :: nat) \<in> {9, 10, 11, 12, 13, 32, 133, 160})"

definition strip :: "string \<Rightarrow> string" where
  "strip s = rev (dropWhile is_space (rev (dropWhile is_space s)))"

definition to_lower :: "char \<Rightarrow> char" where
  "to_lower c = (if in_range CHR ''A'' CHR ''Z'' c then char_of (of_char c + (32 :: nat)) else c)"

subsection \<open>\<open>int(s)\<close> and \<open>float(s)\<close>\<close>

text \<open>
  The grammar of decimal literals that \<open>int\<close> accepts: surrounding whitespace, an optional
  sign, then digits in which single underscores may stand between two digits. \<open>None\<close> is
  Python's \<open>ValueError\<close>. Integers are unbounded, but the conversion refuses a literal of
  more than \<open>sys.get_int_max_str_digits()\<close> digits (4300 unless the interpreter is told
  otherwise; the proxy does not change it), counted without sign, whitespace and
  underscores: that is a \<open>ValueError\<close> too.
\<close>

definition int_max_str_digits :: nat where
  "int_max_str_digits = 4300"

fun digitpart :: "string \<Rightarrow> bool" where
  "digitpart [] = False"
| "digitpart [c] = is_digit c"
| "digitpart (c # d # cs) =
     (is_digit c \<and> (if d = CHR ''_'' then digitpart cs else digitpart (d # cs)))"

definition digit_value :: "char \<Rightarrow> int" where
  "digit_value c = int (of_char c) - 48"

definition digits_value :: "string \<Rightarrow> int" where
  "digits_value ds =
     foldl (\<lambda>acc c. 10 * acc + digit_value c) 0 (filter (\<lambda>c. c \<noteq> CHR ''_'') ds)"

fun unsign :: "string \<Rightarrow> bool \<times> string" where
  "unsign [] = (False, [])"
| "unsign (c # cs) =
     (if c = CHR ''-'' then (True, cs)
      else if c = CHR ''+'' then (False, cs)
      else (False, c # cs))"

definition py_int :: "string \<Rightarrow> int option" where
  "py_int s =
     (case unsign (strip s) of
        (negative, body) \<Rightarrow>
          if digitpart body
             \<and> length (filter (\<lambda>c. c \<noteq> CHR ''_'') body) \<le> int_max_str_digits
          then Some (if negative then - digits_value body else digits_value body)
          else None)"

text \<open>
  The grammar \<open>float\<close> accepts: surrounding whitespace, an optional sign, then \<open>inf\<close>,
  \<open>infinity\<close> or \<open>nan\<close> in any case, or a decimal number (\<open>D\<close>, \<open>D.\<close>, \<open>D.D\<close> or \<open>.D\<close>) with an
  optional exponent. A string outside the grammar raises \<open>ValueError\<close>; one inside always
  converts (to a finite double, an infinity or a NaN).
\<close>

fun split_at_char :: "(char \<Rightarrow> bool) \<Rightarrow> string \<Rightarrow> (string \<times> string) option" where
  "split_at_char p [] = None"
| "split_at_char p (c # cs) =
     (if p c then Some ([], cs)
      else (case split_at_char p cs of
              None \<Rightarrow> None
            | Some (a, b) \<Rightarrow> Some (c # a, b)))"

definition mantissa :: "string \<Rightarrow> bool" where
  "mantissa m =
     (case split_at_char (\<lambda>c. c = CHR ''.'') m of
        None \<Rightarrow> digitpart m
      | Some (a, b) \<Rightarrow> (a = [] \<and> digitpart b) \<or> (digitpart a \<and> (b = [] \<or> digitpart b)))"

definition float_literal :: "string \<Rightarrow> bool" where
  "float_literal s =
     (let body = snd (unsign (strip s)); low = map to_lower body
      in if low = ''inf'' \<or> low = ''infinity'' \<or> low = ''nan'' then True
         else (case split_at_char (\<lambda>c. c = CHR ''e'' \<or> c = CHR ''E'') body of
                 None \<Rightarrow> mantissa body
               | Some (m, e) \<Rightarrow> mantissa m \<and> digitpart (snd (unsign e))))"

subsection \<open>Doubles\<close>

text \<open>
  A Python \<open>float\<close> is an IEEE 754 binary64 number: a finite value (kept as the rational it
  denotes), an infinity or a NaN. The sign of zero is not kept; neither subtraction
  followed by a comparison nor the comparison itself can tell \<open>-0.0\<close> from \<open>0.0\<close>.
  \<open>round_to_double\<close> is rounding to the nearest double, ties to even: with \<open>2^e\<close> the power
  of two at or below \<open>|x|\<close> (not below the smallest normal exponent -1022) the doubles around
  \<open>|x|\<close> are the multiples of \<open>2^(e-52)\<close>; a result of \<open>2^1024\<close> or more is an infinity.
\<close>

datatype pyfloat = Finite rat | PosInf | NegInf | NaN

function ilog2 :: "int \<Rightarrow> int" where
  "ilog2 n = (if n < 2 then 0 else 1 + ilog2 (n div 2))"
  by pat_completeness auto
termination
  by (relation "measure nat") auto

declare ilog2.simps [simp del]

definition pow2 :: "int \<Rightarrow> rat" where
  "pow2 k = (if 0 \<le> k then 2 ^ nat k else 1 / 2 ^ nat (- k))"

definition pow10 :: "int \<Rightarrow> rat" where
  "pow10 k = (if 0 \<le> k then 10 ^ nat k else 1 / 10 ^ nat (- k))"

text \<open>The integer \<open>e\<close> with \<open>2^e \<le> a < 2^(e+1)\<close>, for a positive rational \<open>a\<close>.\<close>

definition floor_log2 :: "rat \<Rightarrow> int" where
  "floor_log2 a =
     (case quotient_of a of
        (p, q) \<Rightarrow>
          (let k = ilog2 p - ilog2 q
           in if pow2 k \<le> a then k else k - 1))"

definition round_half_even :: "rat \<Rightarrow> int" where
  "round_half_even y =
     (let f = \<lfloor>y\<rfloor>; d = y - of_int f
      in if d < 1 / 2 then f
         else if 1 / 2 < d then f + 1
         else if even f then f else f + 1)"

definition round_to_double :: "rat \<Rightarrow> pyfloat" where
  "round_to_double x =
     (if x = 0 then Finite 0
      else (let a = \<bar>x\<bar>;
                e = max (floor_log2 a) (- 1022);
                q = pow2 (e - 52);
                n = round_half_even (a / q)
            in if 1024 \<le> e \<or> (e = 1023 \<and> n = 9007199254740992)
               then (if 0 < x then PosInf else NegInf)
               else Finite (if 0 < x then of_int n * q else - (of_int n * q))))"

text \<open>\<open>a - b\<close> on doubles.\<close>

fun float_sub :: "pyfloat \<Rightarrow> pyfloat \<Rightarrow> pyfloat" where
  "float_sub (Finite a) (Finite b) = round_to_double (a - b)"
| "float_sub (Finite a) PosInf = NegInf"
| "float_sub (Finite a) NegInf = PosInf"
| "float_sub PosInf (Finite b) = PosInf"
| "float_sub PosInf NegInf = PosInf"
| "float_sub NegInf (Finite b) = NegInf"
| "float_sub NegInf PosInf = NegInf"
| "float_sub PosInf PosInf = NaN"
| "float_sub NegInf NegInf = NaN"
| "float_sub NaN b = NaN"
| "float_sub a NaN = NaN"

text \<open>\<open>x < n\<close> for a double \<open>x\<close> and an \<open>int\<close> \<open>n\<close>: Python compares the two exactly.\<close>

fun float_less_int :: "pyfloat \<Rightarrow> int \<Rightarrow> bool" where
  "float_less_int (Finite a) n = (a < of_int n)"
| "float_less_int PosInf n = False"
| "float_less_int NegInf n = True"
| "float_less_int NaN n = False"

text \<open>
  The double \<open>float(s)\<close> of a string of the grammar \<open>float_literal\<close>: the decimal number it
  writes, rounded to the nearest double.
\<close>

definition signed_digits :: "string \<Rightarrow> int" where
  "signed_digits e =
     (case unsign e of (negative, ds) \<Rightarrow> if negative then - digits_value ds else digits_value ds)"

definition decimal_value :: "string \<Rightarrow> int \<Rightarrow> rat" where
  "decimal_value m e =
     (case split_at_char (\<lambda>c. c = CHR ''.'') m of
        None \<Rightarrow> of_int (digits_value m) * pow10 e
      | Some (a, b) \<Rightarrow>
          of_int (digits_value (a @ b))
            * pow10 (e - int (length (filter (\<lambda>c. c \<noteq> CHR ''_'') b))))"

definition float_value :: "string \<Rightarrow> pyfloat" where
  "float_value s =
     (case unsign (strip s) of
        (negative, body) \<Rightarrow>
          (let low = map to_lower body
           in if low = ''inf'' \<or> low = ''infinity'' then (if negative then NegInf else PosInf)
              else if low = ''nan'' then NaN
              else (let mag = (case split_at_char (\<lambda>c. c = CHR ''e'' \<or> c = CHR ''E'') body of
                                 None \<Rightarrow> decimal_value body 0
                               | Some (m, e) \<Rightarrow> decimal_value m (signed_digits e))
                    in round_to_double (if negative then - mag else mag))))"

section \<open>Cache keys\<close>

definition CACHE_DIR :: string where
  "CACHE_DIR = ''proxy_cache/''"

text \<open>\<open>generate_cache_filename\<close>: \<open>CACHE_DIR + re.sub(r'[^a-zA-Z0-9]', '_', url)\<close>.\<close>

definition generate_cache_filename :: "string \<Rightarrow> string" where
  "generate_cache_filename url = CACHE_DIR @ map (\<lambda>c. if is_alnum c then c else CHR ''_'') url"

section \<open>Origin resolver\<close>

text \<open>
  \<open>extract_server_info\<close>. The test \<open>sep in url\<close> followed by \<open>url.split(sep, 1)\<close> is the case
  distinction on \<open>split_once\<close>: the split has two parts exactly when the separator occurs.
  The \<open>print\<close> of a detected port is console logging and is not part of the result.
\<close>

definition extract_server_info :: "string \<Rightarrow> string \<times> int \<times> string" where
  "extract_server_info url0 =
     (let url = (case split_once ''://'' url0 of None \<Rightarrow> url0 | Some (proto, rest) \<Rightarrow> rest);
          (server_info, path) =
            (case split_once ''/'' url of
               None \<Rightarrow> (url, ''/'')
             | Some (si, rest) \<Rightarrow> (si, ''/'' @ rest))
      in case split_once '':'' server_info of
           None \<Rightarrow> (server_info, 80, path)
         | Some (hostname, port_str) \<Rightarrow>
             (case py_int port_str of
                Some port \<Rightarrow> (hostname, port, path)
              | None \<Rightarrow> (hostname, 80, path)))"


section \<open>Freshness evaluator\<close>

datatype py_exn = TypeError | ValueError | OverflowError | UnicodeDecodeError | OSError

text \<open>
  A \<open>datetime\<close> is aware (it carries a UTC offset and so denotes an instant, here in
  microseconds since the epoch) or naive (a wall-clock reading without offset, here the
  instant it would denote when read as UTC). Ordering an aware against a naive \<open>datetime\<close>
  raises \<open>TypeError\<close>.
\<close>

datatype datetime = Naive int | Aware int

fun datetime_less :: "datetime \<Rightarrow> datetime \<Rightarrow> py_exn + bool" where
  "datetime_less (Aware a) (Aware b) = Inr (a < b)"
| "datetime_less (Naive a) (Naive b) = Inr (a < b)"
| "datetime_less (Aware a) (Naive b) = Inl TypeError"
| "datetime_less (Naive a) (Aware b) = Inl TypeError"

text \<open>
  What the evaluator takes from the standard library and the clock:
  \<^item> \<open>parsedate_to_datetime\<close> is \<open>email.utils.parsedate_to_datetime\<close>: it raises on a string
    that is no date, returns a naive \<open>datetime\<close> for a date whose zone is \<open>-0000\<close> or
    missing, and an aware one otherwise;
  \<^item> \<open>utc_now\<close> is the instant of \<open>datetime.datetime.now(datetime.timezone.utc)\<close>;
  \<^item> \<open>time_time\<close> is the double \<open>time.time()\<close>.
\<close>

record clock =
  parsedate_to_datetime :: "string \<Rightarrow> py_exn + datetime"
  utc_now :: int
  time_time :: pyfloat

text \<open>The handler \<open>except (TypeError, ValueError): return False\<close>.\<close>

fun except_type_value :: "py_exn + bool \<Rightarrow> py_exn + bool" where
  "except_type_value (Inr b) = Inr b"
| "except_type_value (Inl e) = (if e = TypeError \<or> e = ValueError then Inr False else Inl e)"

text \<open>
  \<open>re.search(r'max-age=(\d+)', s)\<close>: group 1 of the leftmost match, the longest run of
  digits after the first \<open>max-age=\<close> that has a digit behind it.
\<close>

fun search_max_age :: "string \<Rightarrow> string option" where
  "search_max_age [] = None"
| "search_max_age (c # cs) =
     (if startswith (c # cs) ''max-age='' \<and> takeWhile is_digit (drop 8 (c # cs)) \<noteq> []
      then Some (takeWhile is_digit (drop 8 (c # cs)))
      else search_max_age cs)"

text \<open>
  \<open>is_cache_valid\<close>. \<open>Inr\<close> is the returned verdict, \<open>Inl\<close> an exception that leaves the
  function. The \<open>try\<close> block covers the parse of \<open>Expires\<close> and the comparison; the
  conversions \<open>int(...)\<close> and \<open>float(...)\<close> of the \<open>Cache-Control\<close> branch stand outside any
  handler.
\<close>

definition is_cache_valid :: "clock \<Rightarrow> (string \<rightharpoonup> string) \<Rightarrow> py_exn + bool" where
  "is_cache_valid env headers =
     (case headers ''Expires'' of
        Some expires_str \<Rightarrow>
          except_type_value
            (case parsedate_to_datetime env expires_str of
               Inl e \<Rightarrow> Inl e
             | Inr expires_time \<Rightarrow> datetime_less (Aware (utc_now env)) expires_time)
      | None \<Rightarrow>
          (case headers ''Cache-Control'' of
             None \<Rightarrow> Inr False
           | Some cache_control \<Rightarrow>
               if str_contains ''no-cache'' cache_control \<or> str_contains ''no-store'' cache_control
               then Inr False
               else (case search_max_age cache_control of
                       None \<Rightarrow> Inr False
                     | Some digits \<Rightarrow>
                         (case py_int digits of
                            None \<Rightarrow> Inl ValueError
                          | Some max_age \<Rightarrow>
                              (case headers ''cache-timestamp'' of
                                 None \<Rightarrow> Inr False
                               | Some stamp \<Rightarrow>
                                   if float_literal stamp
                                   then Inr (float_less_int
                                               (float_sub (time_time env) (float_value stamp))
                                               max_age)
                                   else Inl ValueError)))))"

text \<open>
  The reading of the specification for \<open>Expires\<close>: the value parses and the current time is
  strictly before the parsed time.
\<close>

fun parsed_time :: "py_exn + datetime \<Rightarrow> int option" where
  "parsed_time (Inl e) = None"
| "parsed_time (Inr (Naive t)) = Some t"
| "parsed_time (Inr (Aware t)) = Some t"

definition expires_in_future :: "clock \<Rightarrow> string \<Rightarrow> bool" where
  "expires_in_future env expires_str =
     (case parsed_time (parsedate_to_datetime env expires_str) of
        None \<Rightarrow> False
      | Some t \<Rightarrow> utc_now env < t)"

text \<open>
  Two sample clocks. The first parses every string to the aware date 2030-01-01 00:00:00
  UTC; the second parses \<open>Thu, 01 Jan 2099 00:00:00 -0000\<close> as the library does, to a naive
  date, and nothing else. Both read 2026-11-04 00:00:00 UTC.
\<close>

definition sample_clock :: clock where
  "sample_clock =
     \<lparr> parsedate_to_datetime = (\<lambda>s. Inr (Aware 1893456000000000)),
       utc_now = 1793750400000000,
       time_time = Finite 1793750400 \<rparr>"

definition naive_clock :: clock where
  "naive_clock =
     \<lparr> parsedate_to_datetime =
         (\<lambda>s. if s = ''Thu, 01 Jan 2099 00:00:00 -0000''
              then Inr (Naive 4070908800000000) else Inl ValueError),
       utc_now = 1793750400000000,
       time_time = Finite 1793750400 \<rparr>"

section \<open>Cache store\<close>

text \<open>
  The cache directory maps a file name to the bytes of the file. A file opened in text
  mode (\<open>'r'\<close>, \<open>'r+'\<close>, no \<open>newline\<close> argument) is decoded with the locale's codec and read
  with universal newlines: \<open>\r\n\<close> and a lone \<open>\r\<close> both arrive as \<open>\n\<close>.
\<close>

type_synonym filesystem = "string \<rightharpoonup> string"

record codec =
  decode :: "string \<Rightarrow> py_exn + string"
  encode :: "string \<Rightarrow> py_exn + string"

fun universal_newlines :: "string \<Rightarrow> string" where
  "universal_newlines [] = []"
| "universal_newlines [c] = (if c = CR then [LF] else [c])"
| "universal_newlines (c # d # cs) =
     (if c = CR
      then (if d = LF then LF # universal_newlines cs else LF # universal_newlines (d # cs))
      else c # universal_newlines (d # cs))"

text \<open>\<open>open(name, 'r').read()\<close> (and the \<open>read\<close> of \<open>'r+'\<close>).\<close>

definition read_text :: "codec \<Rightarrow> filesystem \<Rightarrow> string \<Rightarrow> py_exn + string" where
  "read_text cd fs name =
     (case fs name of
        None \<Rightarrow> Inl OSError
      | Some bytes \<Rightarrow>
          (case decode cd bytes of
             Inl e \<Rightarrow> Inl e
           | Inr text \<Rightarrow> Inr (universal_newlines text)))"

text \<open>The loop body of \<open>extract_headers_from_cache\<close>: one line of the head section.\<close>

definition add_header_line :: "string \<Rightarrow> (string \<rightharpoonup> string) \<Rightarrow> (string \<rightharpoonup> string)" where
  "add_header_line line headers =
     (if str_contains '': '' line
      then (case split_once '': '' line of
              Some (name, val) \<Rightarrow> headers(name \<mapsto> val)
            | None \<Rightarrow> headers)
      else headers)"

text \<open>
  \<open>extract_headers_from_cache\<close> from the point where \<open>content\<close> has been read: the split on
  the first blank line, the status line skipped, the remaining lines folded into the
  dictionary.
\<close>

definition headers_of_content :: "string \<Rightarrow> (string \<rightharpoonup> string)" where
  "headers_of_content content =
     (case split_once (CRLF @ CRLF) content of
        None \<Rightarrow> Map.empty
      | Some (header_section, body) \<Rightarrow>
          fold add_header_line (tl (str_split CRLF header_section)) Map.empty)"

text \<open>\<open>extract_headers_from_cache\<close>: every exception of the read ends in the empty dictionary.\<close>

definition extract_headers_from_cache :: "codec \<Rightarrow> filesystem \<Rightarrow> string \<Rightarrow> (string \<rightharpoonup> string)" where
  "extract_headers_from_cache cd fs cache_filename =
     (case read_text cd fs cache_filename of
        Inl e \<Rightarrow> Map.empty
      | Inr content \<Rightarrow> headers_of_content content)"

text \<open>
  The write path of \<open>handle_client_request\<close> (and, with the same statements, of
  \<open>prefetch_resource\<close>): the response is written in binary mode, then the file is reopened
  in text mode \<open>'r+'\<close>, read, split on the first blank line and, when the split has two
  parts, rewritten from offset 0 with the line \<open>cache-timestamp: <time.time()>\<close> appended to
  the head. \<open>stamp\<close> is the text of \<open>time.time()\<close>. The result is the file system afterwards
  and the exception, if any, that left the block.
\<close>

definition overwrite_from_start :: "string \<Rightarrow> string \<Rightarrow> string" where
  "overwrite_from_start new old = new @ drop (length new) old"

definition store_response ::
  "codec \<Rightarrow> string \<Rightarrow> filesystem \<Rightarrow> string \<Rightarrow> string \<Rightarrow> filesystem \<times> py_exn option" where
  "store_response cd stamp fs cache_filename response =
     (let fs1 = fs(cache_filename \<mapsto> response)
      in case read_text cd fs1 cache_filename of
           Inl e \<Rightarrow> (fs1, Some e)
         | Inr content \<Rightarrow>
             (case split_once (CRLF @ CRLF) content of
                None \<Rightarrow> (fs1, None)
              | Some (header, body) \<Rightarrow>
                  (case encode cd ((header @ CRLF @ ''cache-timestamp: '' @ stamp) @ CRLF @ CRLF @ body) of
                     Inl e \<Rightarrow> (fs1, Some e)
                   | Inr bytes \<Rightarrow>
                       (fs1(cache_filename \<mapsto> overwrite_from_start bytes response), None))))"

text \<open>The response of the round-trip example.\<close>

definition plain_response :: string where
  "plain_response =
     ''HTTP/1.1 200 OK'' @ CRLF @ ''Content-Type: text/plain'' @ CRLF @ CRLF @ ''hello''"


section \<open>Prefetch scheduler\<close>

text \<open>
  \<open>re.compile(attr + r'[\'"]([^\'"]+)[\'"]').findall(html)\<close> for \<open>attr\<close> one of \<open>href=\<close> and
  \<open>src=\<close>: scanning from the left, a match is \<open>attr\<close>, a quote, a non-empty run of
  characters that are no quotes, and a quote; the run is the result, and the scan goes on
  behind the closing quote.
\<close>

definition is_quote :: "char \<Rightarrow> bool" where
  "is_quote c = (c = CHR 0x27 \<or> c = CHR 0x22)"

definition attr_value :: "string \<Rightarrow> string \<Rightarrow> string" where
  "attr_value attr s = takeWhile (\<lambda>c. \<not> is_quote c) (tl (drop (length attr) s))"

definition attr_rest :: "string \<Rightarrow> string \<Rightarrow> string" where
  "attr_rest attr s = dropWhile (\<lambda>c. \<not> is_quote c) (tl (drop (length attr) s))"

definition attr_match :: "string \<Rightarrow> string \<Rightarrow> bool" where
  "attr_match attr s =
     (startswith s attr \<and> drop (length attr) s \<noteq> [] \<and> is_quote (hd (drop (length attr) s))
      \<and> attr_value attr s \<noteq> [] \<and> attr_rest attr s \<noteq> [])"

function findall_attr :: "string \<Rightarrow> string \<Rightarrow> string list" where
  "findall_attr attr [] = []"
| "findall_attr attr (c # cs) =
     (if attr_match attr (c # cs)
      then attr_value attr (c # cs) # findall_attr attr (tl (attr_rest attr (c # cs)))
      else findall_attr attr cs)"
  by pat_completeness auto
termination
proof (relation "measure (\<lambda>(attr, s). length s)")
  show "wf (measure (\<lambda>(attr, s). length s))" by simp
next
  fix attr cs :: string and c :: char
  assume "attr_match attr (c # cs)"
  then have ne: "attr_rest attr (c # cs) \<noteq> []"
    by (simp add: attr_match_def)
  have "length (attr_rest attr (c # cs)) \<le> length (c # cs)"
    unfolding attr_rest_def
    by (rule order_trans [OF length_dropWhile_le]) simp
  with ne have "length (tl (attr_rest attr (c # cs))) < length (c # cs)"
    by (cases "attr_rest attr (c # cs)") simp_all
  then show "((attr, tl (attr_rest attr (c # cs))), (attr, c # cs)) \<in> measure (\<lambda>(attr, s). length s)"
    by simp
next
  fix attr cs :: string and c :: char
  show "((attr, cs), (attr, c # cs)) \<in> measure (\<lambda>(attr, s). length s)" by simp
qed

declare findall_attr.simps [simp del]





text \<open>
  A page with the five kinds of candidate, and what \<open>urlparse\<close> returns for the base URL
  \<open>http://ex.com/a/b.html\<close>: the scheme \<open>http\<close> and the host \<open>ex.com\<close>.
\<close>

definition sample_page :: string where
  "sample_page =
     ''<a href='' @ [CHR 0x22] @ ''/c.png'' @ [CHR 0x22] @ ''>''
     @ ''<script src='' @ [CHR 0x27] @ ''//cdn.com/d.js'' @ [CHR 0x27] @ ''></script>''
     @ ''<img src='' @ [CHR 0x22] @ ''e.png'' @ [CHR 0x22] @ ''>''
     @ ''<a href='' @ [CHR 0x22] @ ''http://x.com/f'' @ [CHR 0x22] @ ''>''
     @ ''<a href='' @ [CHR 0x22] @ ''javascript:void(0)'' @ [CHR 0x22] @ ''>''
     @ ''<a href='' @ [CHR 0x22] @ ''#'' @ [CHR 0x22] @ ''>''"


section \<open>Program start\<close>

text \<open>
  \<open>main\<close> up to the point where the listening socket is created: what it has written, to
  which stream, and how it went on. \<open>print\<close> writes to standard output.
\<close>

datatype stream = Stdout | Stderr

datatype outcome = SystemExit int | Raised py_exn | Listening int

record run =
  written :: "(stream \<times> string) list"
  outcome :: outcome

definition usage :: string where
  "usage = ''Usage: python Proxy-bonus.py <port>''"

definition main :: "string list \<Rightarrow> run" where
  "main argv =
     (if length argv \<le> 1
      then \<lparr> written = [(Stdout, usage)], outcome = SystemExit 1 \<rparr>
      else (case py_int (argv ! 1) of
              None \<Rightarrow> \<lparr> written = [], outcome = Raised ValueError \<rparr>
            | Some port \<Rightarrow> \<lparr> written = [], outcome = Listening port \<rparr>))"

fun written_to :: "stream \<Rightarrow> run \<Rightarrow> string list" where
  "written_to st r = map snd (filter (\<lambda>w. fst w = st) (written r))"

section \<open>Lemmas on strings\<close>

lemma startswith_append: "startswith (p @ r) p"
  by (induction p) simp_all

lemma startswith_iff: "startswith s p \<longleftrightarrow> (\<exists>r. s = p @ r)"
proof (induction s p rule: startswith.induct)
  case (1 s)
  then show ?case by simp
next
  case (2 p ps)
  then show ?case by simp
next
  case (3 c cs p ps)
  then show ?case by auto
qed

lemma startswith_drop: "startswith s p \<Longrightarrow> s = p @ drop (length p) s"
  by (auto simp: startswith_iff)

lemma split_once_append: "split_once sep s = Some (a, b) \<Longrightarrow> s = a @ sep @ b"
proof (induction s arbitrary: a)
  case Nil
  then show ?case by simp
next
  case (Cons c cs)
  show ?case
  proof (cases "startswith (c # cs) sep")
    case True
    with Cons.prems have "a = []" and "b = drop (length sep) (c # cs)" by simp_all
    with startswith_drop [OF True] show ?thesis by simp
  next
    case False
    with Cons.prems obtain a' where sp: "split_once sep cs = Some (a', b)" and a: "a = c # a'"
      by (auto split: option.splits)
    from Cons.IH [OF sp] a show ?thesis by simp
  qed
qed

lemma split_once_None_iff: "sep \<noteq> [] \<Longrightarrow> split_once sep s = None \<longleftrightarrow> \<not> str_contains sep s"
  by (induction s) (auto split: option.splits)

lemma split_once_char: "c \<notin> set a \<Longrightarrow> split_once [c] (a @ c # b) = Some (a, b)"
  by (induction a) auto

lemma split_once_char_None: "c \<notin> set s \<Longrightarrow> split_once [c] s = None"
  by (induction s) auto

lemma str_contains_middle: "str_contains sub (a @ sub @ b)"
proof (induction a)
  case Nil
  show ?case
  proof (cases sub)
    case Nil
    then show ?thesis by (cases b) simp_all
  next
    case (Cons x xs)
    have "startswith (sub @ b) sub" by (rule startswith_append)
    with Cons show ?thesis by simp
  qed
next
  case (Cons x a)
  then show ?case by simp
qed

lemma split_once_set: "split_once sep s = Some (a, b) \<Longrightarrow> set sep \<subseteq> set s"
  by (drule split_once_append) auto

section \<open>Cache keys: determinism and sanitization\<close>

text \<open>
  Claim C8. \<open>generate_cache_filename\<close> reads nothing but its argument and the constant
  \<open>CACHE_DIR\<close>, so it is a function of the URL: the same URL always gives the same key. The
  key is \<open>CACHE_DIR\<close> followed by the URL with every character outside \<open>[A-Za-z0-9]\<close>
  replaced by \<open>_\<close>, position by position, and the two distinct URLs \<open>http://a.com/x\<close> and
  \<open>http://a_com_x\<close> have the same key.
\<close>

theorem generate_cache_filename_sanitizes:
  "generate_cache_filename url = CACHE_DIR @ map (\<lambda>c. if is_alnum c then c else CHR ''_'') url
   \<and> length (generate_cache_filename url) = length CACHE_DIR + length url
   \<and> (\<forall>i < length url.
        generate_cache_filename url ! (length CACHE_DIR + i)
          = (if is_alnum (url ! i) then url ! i else CHR ''_''))
   \<and> generate_cache_filename ''http://a.com/x'' = generate_cache_filename ''http://a_com_x''
   \<and> ''http://a.com/x'' \<noteq> ''http://a_com_x''"
proof -
  have key: "generate_cache_filename url = CACHE_DIR @ map (\<lambda>c. if is_alnum c then c else CHR ''_'') url"
    by (simp add: generate_cache_filename_def)
  have len: "length (generate_cache_filename url) = length CACHE_DIR + length url"
    by (simp add: key)
  have nth: "\<forall>i < length url.
        generate_cache_filename url ! (length CACHE_DIR + i)
          = (if is_alnum (url ! i) then url ! i else CHR ''_'')"
    by (simp add: key nth_append)
  have coll: "generate_cache_filename ''http://a.com/x'' = generate_cache_filename ''http://a_com_x''"
    by (simp add: generate_cache_filename_def is_alnum_def in_range_def)
  have ne: "''http://a.com/x'' \<noteq> ''http://a_com_x''" by simp
  from key len nth coll ne show ?thesis by blast
qed

theorem generate_cache_filename_sanitizes_witness:
  "generate_cache_filename ''a.com'' ! (length CACHE_DIR + 1) = CHR ''_''
   \<and> generate_cache_filename ''a.com'' ! (length CACHE_DIR + 2) = CHR ''c''"
proof -
  from generate_cache_filename_sanitizes [of "''a.com''"]
  have all: "\<forall>i < length ''a.com''.
        generate_cache_filename ''a.com'' ! (length CACHE_DIR + i)
          = (if is_alnum (''a.com'' ! i) then ''a.com'' ! i else CHR ''_'')"
    by blast
  from all [rule_format, of 1] all [rule_format, of 2] show ?thesis
    by (simp add: is_alnum_def in_range_def)
qed

section \<open>Program start without an argument\<close>

text \<open>
  Claim C9 says the usage message goes to standard error. \<open>main\<close> calls \<open>print\<close> without a
  \<open>file\<close> argument, which writes to standard output: started with the program name alone,
  nothing is written to standard error.
\<close>

theorem main_usage_on_stderr_counterexample:
  "usage \<notin> set (written_to Stderr (main [''Proxy-bonus.py'']))
   \<and> written_to Stdout (main [''Proxy-bonus.py'']) = [usage]"
  by (simp add: main_def)

text \<open>
  Claim C9, amended: started with no positional argument, the program writes the usage
  message to standard output, writes nothing to standard error, and exits with code 1.
\<close>

theorem main_no_argument:
  "length argv \<le> 1 \<Longrightarrow>
     written_to Stdout (main argv) = [usage]
     \<and> written_to Stderr (main argv) = []
     \<and> outcome (main argv) = SystemExit 1"
  by (simp add: main_def)

theorem main_no_argument_witness:
  "written_to Stdout (main [''Proxy-bonus.py'']) = [usage]
   \<and> written_to Stderr (main [''Proxy-bonus.py'']) = []
   \<and> outcome (main [''Proxy-bonus.py'']) = SystemExit 1"
  using main_no_argument [of "[''Proxy-bonus.py'']"] by simp

section \<open>Origin resolver: the split into host, port and path\<close>

lemma no_scheme: "\<not> str_contains ''://'' url \<Longrightarrow> split_once ''://'' url = None"
  by (simp add: split_once_None_iff)

lemma esi_no_scheme:
  assumes "split_once ''://'' url = None"
  shows "extract_server_info url =
     (case split_once ''/'' url of
        None \<Rightarrow> (case split_once '':'' url of
                   None \<Rightarrow> (url, 80, ''/'')
                 | Some (h, p) \<Rightarrow> (h, (case py_int p of Some n \<Rightarrow> n | None \<Rightarrow> 80), ''/''))
      | Some (si, rest) \<Rightarrow>
          (case split_once '':'' si of
             None \<Rightarrow> (si, 80, ''/'' @ rest)
           | Some (h, p) \<Rightarrow> (h, (case py_int p of Some n \<Rightarrow> n | None \<Rightarrow> 80), ''/'' @ rest)))"
  using assms by (simp add: extract_server_info_def split: option.splits)

lemma esi_host_port_path:
  assumes "CHR '':'' \<notin> set h" "CHR ''/'' \<notin> set h" "CHR ''/'' \<notin> set p"
    and "\<not> str_contains ''://'' (h @ '':'' @ p @ ''/'' @ rest)"
  shows "extract_server_info (h @ '':'' @ p @ ''/'' @ rest)
           = (h, (case py_int p of Some n \<Rightarrow> n | None \<Rightarrow> 80), ''/'' @ rest)"
proof -
  have "CHR ''/'' \<notin> set (h @ '':'' @ p)" using assms by simp
  from split_once_char [OF this, of rest]
  have sl: "split_once ''/'' (h @ '':'' @ p @ ''/'' @ rest) = Some (h @ '':'' @ p, rest)" by simp
  from split_once_char [OF assms(1), of p]
  have co: "split_once '':'' (h @ '':'' @ p) = Some (h, p)" by simp
  show ?thesis
    by (simp only: esi_no_scheme [OF no_scheme [OF assms(4)]] sl co option.case prod.case)
qed

lemma esi_host_port:
  assumes "CHR '':'' \<notin> set h" "CHR ''/'' \<notin> set h" "CHR ''/'' \<notin> set p"
  shows "extract_server_info (h @ '':'' @ p)
           = (h, (case py_int p of Some n \<Rightarrow> n | None \<Rightarrow> 80), ''/'')"
proof -
  have "CHR ''/'' \<notin> set (h @ '':'' @ p)" using assms by simp
  then have sl: "split_once ''/'' (h @ '':'' @ p) = None" by (rule split_once_char_None)
  from split_once_char [OF assms(1), of p]
  have co: "split_once '':'' (h @ '':'' @ p) = Some (h, p)" by simp
  have "\<not> str_contains ''://'' (h @ '':'' @ p)"
  proof
    assume "str_contains ''://'' (h @ '':'' @ p)"
    then obtain a b where "split_once ''://'' (h @ '':'' @ p) = Some (a, b)"
      using split_once_None_iff [of "''://''" "h @ '':'' @ p"] by auto
    from split_once_set [OF this] \<open>CHR ''/'' \<notin> set (h @ '':'' @ p)\<close> show False by auto
  qed
  from esi_no_scheme [OF no_scheme [OF this]] sl co show ?thesis by simp
qed

lemma esi_host_path:
  assumes "CHR '':'' \<notin> set h" "CHR ''/'' \<notin> set h"
    and "\<not> str_contains ''://'' (h @ ''/'' @ rest)"
  shows "extract_server_info (h @ ''/'' @ rest) = (h, 80, ''/'' @ rest)"
proof -
  from split_once_char [OF assms(2), of rest]
  have sl: "split_once ''/'' (h @ ''/'' @ rest) = Some (h, rest)" by simp
  from assms(1) have co: "split_once '':'' h = None" by (rule split_once_char_None)
  from esi_no_scheme [OF no_scheme [OF assms(3)]] sl co show ?thesis by simp
qed

lemma esi_host:
  assumes "CHR '':'' \<notin> set h" "CHR ''/'' \<notin> set h"
  shows "extract_server_info h = (h, 80, ''/'')"
proof -
  from assms(2) have sl: "split_once ''/'' h = None" by (rule split_once_char_None)
  from assms(1) have co: "split_once '':'' h = None" by (rule split_once_char_None)
  have "\<not> str_contains ''://'' h"
  proof
    assume "str_contains ''://'' h"
    then obtain a b where "split_once ''://'' h = Some (a, b)"
      using split_once_None_iff [of "''://''" h] by auto
    from split_once_set [OF this] assms(1) show False by auto
  qed
  from esi_no_scheme [OF no_scheme [OF this]] sl co show ?thesis by simp
qed

lemmas py_int_eval = py_int_def int_max_str_digits_def strip_def is_space_def digits_value_def
  digit_value_def is_digit_def in_range_def

lemma esi_examples:
  "extract_server_info ''example.com:8080/path'' = (''example.com'', 8080, ''/path'')"
  "extract_server_info ''example.com/path'' = (''example.com'', 80, ''/path'')"
  "extract_server_info ''example.com:notanumber/path'' = (''example.com'', 80, ''/path'')"
  by (simp_all add: extract_server_info_def py_int_eval)


text \<open>
  On a target without \<open>://\<close> the resolver cuts at the first \<open>/\<close> (the path is \<open>/\<close> when there is
  none) and cuts the part before it at the first \<open>:\<close>; the port is the integer of the port
  token, and 80 when there is no token or \<open>int\<close> rejects it. The four shapes below cover every
  such target.
\<close>

lemma extract_server_info_shapes:
  "(\<forall>h p rest. CHR '':'' \<notin> set h \<and> CHR ''/'' \<notin> set h \<and> CHR ''/'' \<notin> set p
        \<and> \<not> str_contains ''://'' (h @ '':'' @ p @ ''/'' @ rest) \<longrightarrow>
      extract_server_info (h @ '':'' @ p @ ''/'' @ rest)
        = (h, (case py_int p of Some n \<Rightarrow> n | None \<Rightarrow> 80), ''/'' @ rest))
   \<and> (\<forall>h p. CHR '':'' \<notin> set h \<and> CHR ''/'' \<notin> set h \<and> CHR ''/'' \<notin> set p \<longrightarrow>
      extract_server_info (h @ '':'' @ p)
        = (h, (case py_int p of Some n \<Rightarrow> n | None \<Rightarrow> 80), ''/''))
   \<and> (\<forall>h rest. CHR '':'' \<notin> set h \<and> CHR ''/'' \<notin> set h
        \<and> \<not> str_contains ''://'' (h @ ''/'' @ rest) \<longrightarrow>
      extract_server_info (h @ ''/'' @ rest) = (h, 80, ''/'' @ rest))
   \<and> (\<forall>h. CHR '':'' \<notin> set h \<and> CHR ''/'' \<notin> set h \<longrightarrow>
      extract_server_info h = (h, 80, ''/''))
   \<and> extract_server_info ''example.com:8080/path'' = (''example.com'', 8080, ''/path'')
   \<and> extract_server_info ''example.com/path'' = (''example.com'', 80, ''/path'')
   \<and> extract_server_info ''example.com:notanumber/path'' = (''example.com'', 80, ''/path'')"
  using esi_host_port_path esi_host_port esi_host_path esi_host esi_examples
  by blast

text \<open>
  Claim C6 says that every scheme-stripped target is split at its first \<open>/\<close> for the path
  and, before it, at its first \<open>:\<close> for the port. The resolver tests \<open>'://' in url\<close> anywhere
  in the target, not only at its start, under the comment \<open>Remove protocol prefix\<close>: for the
  request line
  \<open>GET http://example.com/r?u=http://evil.com:81/x HTTP/1.1\<close> the dispatcher strips the
  leading \<open>http://\<close> and hands over \<open>example.com/r?u=http://evil.com:81/x\<close>, which the
  resolver cuts again, behind the \<open>://\<close> of the query. The split at the first \<open>/\<close> would give
  \<open>(example.com, 80, /r?u=http://evil.com:81/x)\<close>; the resolver returns \<open>(evil.com, 81, /x)\<close>.
\<close>

theorem extract_server_info_inner_scheme:
  "extract_server_info ''example.com/r?u=http://evil.com:81/x'' = (''evil.com'', 81, ''/x'')"
  by (simp add: extract_server_info_def py_int_eval)







section \<open>Freshness evaluator: the conversions\<close>

lemma takeWhile_digits_digitpart:
  "ds \<noteq> [] \<Longrightarrow> \<forall>c \<in> set ds. is_digit c \<Longrightarrow> digitpart ds"
proof (induction ds rule: digitpart.induct)
  case 1
  then show ?case by simp
next
  case (2 c)
  then show ?case by simp
next
  case (3 c d cs)
  from "3.prems" have d: "is_digit d" by simp
  then have "d \<noteq> CHR ''_''" by (auto simp: is_digit_def in_range_def)
  with 3 show ?case by simp
qed

lemma is_digit_not_space: "is_digit c \<Longrightarrow> \<not> is_space c"
  by (auto simp: is_digit_def in_range_def is_space_def)

lemma strip_digits:
  assumes "ds \<noteq> []" "\<forall>c \<in> set ds. is_digit c"
  shows "strip ds = ds"
proof -
  from assms obtain c cs where ds: "ds = c # cs" by (cases ds) auto
  with assms have "\<not> is_space c" by (simp add: is_digit_not_space)
  with ds have 1: "dropWhile is_space ds = ds" by simp
  from assms have "rev ds \<noteq> []" "\<not> is_space (hd (rev ds))"
    by (simp_all add: hd_rev is_digit_not_space)
  then have 2: "dropWhile is_space (rev ds) = rev ds"
    by (cases "rev ds") simp_all
  show ?thesis by (simp add: strip_def 1 2)
qed
lemma digits_no_underscore: "\<forall>c \<in> set ds. is_digit c \<Longrightarrow> filter (\<lambda>c. c \<noteq> CHR ''_'') ds = ds"
proof -
  assume a: "\<forall>c \<in> set ds. is_digit c"
  have "\<forall>c \<in> set ds. c \<noteq> CHR ''_''"
  proof
    fix c
    assume "c \<in> set ds"
    with a have "is_digit c" by simp
    then show "c \<noteq> CHR ''_''" by (auto simp: is_digit_def in_range_def)
  qed
  then show ?thesis by (simp add: filter_id_conv)
qed

lemma py_int_digits:
  assumes "ds \<noteq> []" "\<forall>c \<in> set ds. is_digit c"
  shows "py_int ds = (if length ds \<le> int_max_str_digits then Some (digits_value ds) else None)"
proof -
  from assms obtain c cs where ds: "ds = c # cs" by (cases ds) auto
  with assms have "is_digit c" by simp
  then have "c \<noteq> CHR ''-''" "c \<noteq> CHR ''+''" by (auto simp: is_digit_def in_range_def)
  with ds have u: "unsign ds = (False, ds)" by simp
  from takeWhile_digits_digitpart [OF assms] strip_digits [OF assms] u
    digits_no_underscore [OF assms(2)]
  show ?thesis by (simp add: py_int_def)
qed

lemma search_max_age_digits:
  "search_max_age s = Some ds \<Longrightarrow> ds \<noteq> [] \<and> (\<forall>c \<in> set ds. is_digit c)"
proof (induction s)
  case Nil
  then show ?case by simp
next
  case (Cons c cs)
  show ?case
  proof (cases "startswith (c # cs) ''max-age='' \<and> takeWhile is_digit (drop 8 (c # cs)) \<noteq> []")
    case True
    with Cons.prems have "ds = takeWhile is_digit (drop 8 (c # cs))" by simp
    with True show ?thesis by (auto dest: set_takeWhileD)
  next
    case False
    with Cons.prems have "search_max_age cs = Some ds" by (simp split: if_splits)
    with Cons.IH show ?thesis by simp
  qed
qed

lemma search_max_age_int:
  "search_max_age s = Some ds \<Longrightarrow>
     py_int ds = (if length ds \<le> int_max_str_digits then Some (digits_value ds) else None)"
  using search_max_age_digits [of s ds] py_int_digits [of ds] by blast

lemma not_str_contains: "c \<in> set sub \<Longrightarrow> c \<notin> set s \<Longrightarrow> \<not> str_contains sub s"
proof
  assume c: "c \<in> set sub" "c \<notin> set s" and "str_contains sub s"
  from c(1) have "sub \<noteq> []" by auto
  with \<open>str_contains sub s\<close> obtain a b where "split_once sub s = Some (a, b)"
    using split_once_None_iff [of sub s] by auto
  from split_once_set [OF this] c show False by auto
qed

section \<open>Freshness evaluator: verdicts\<close>

lemmas float_eval = float_literal_def mantissa_def strip_def is_space_def to_lower_def
  is_digit_def in_range_def

text \<open>
  Claim C3 says that a value that does not parse never raises out of the evaluator, and
  names the header \<open>cache-timestamp\<close>. The conversion \<open>float(headers['cache-timestamp'])\<close>
  stands outside any \<open>try\<close>: with \<open>Cache-Control: max-age=60\<close> and the timestamp \<open>abc\<close> the
  evaluator raises \<open>ValueError\<close>, whatever the clock and the date parser are.
\<close>

theorem is_cache_valid_bad_timestamp_raises:
  "is_cache_valid env [''Cache-Control'' \<mapsto> ''max-age=60'', ''cache-timestamp'' \<mapsto> ''abc'']
     = Inl ValueError"
  by (simp add: is_cache_valid_def py_int_eval float_eval)

text \<open>
  The \<open>Cache-Control\<close> branch, case by case. Without \<open>Expires\<close> and with \<open>Cache-Control\<close>: the
  verdict is invalid when the value contains \<open>no-cache\<close> or \<open>no-store\<close>; otherwise, with a
  \<open>max-age=<digits>\<close> directive that \<open>int\<close> accepts and a \<open>cache-timestamp\<close> that \<open>float\<close>
  accepts, the verdict is the test \<open>(time.time() - cache_time) < max_age\<close> on doubles;
  a directive of more digits than \<open>int\<close> converts raises \<open>ValueError\<close>; and the verdict is
  invalid when there is no directive, or a directive that converts and no timestamp.
\<close>

lemma is_cache_valid_cache_control_cases:
  assumes "headers ''Expires'' = None" and "headers ''Cache-Control'' = Some cc"
  shows "(str_contains ''no-cache'' cc \<or> str_contains ''no-store'' cc
            \<longrightarrow> is_cache_valid env headers = Inr False)
       \<and> (\<forall>ds stamp. \<not> str_contains ''no-cache'' cc \<and> \<not> str_contains ''no-store'' cc
            \<and> search_max_age cc = Some ds \<and> length ds \<le> int_max_str_digits
            \<and> headers ''cache-timestamp'' = Some stamp \<and> float_literal stamp
            \<longrightarrow> is_cache_valid env headers
                  = Inr (float_less_int (float_sub (time_time env) (float_value stamp))
                           (digits_value ds)))
       \<and> (\<forall>ds. \<not> str_contains ''no-cache'' cc \<and> \<not> str_contains ''no-store'' cc
            \<and> search_max_age cc = Some ds \<and> int_max_str_digits < length ds
            \<longrightarrow> is_cache_valid env headers = Inl ValueError)
       \<and> (\<not> str_contains ''no-cache'' cc \<and> \<not> str_contains ''no-store'' cc
            \<and> (search_max_age cc = None
                \<or> ((\<exists>ds. search_max_age cc = Some ds \<and> length ds \<le> int_max_str_digits)
                    \<and> headers ''cache-timestamp'' = None))
            \<longrightarrow> is_cache_valid env headers = Inr False)"
proof (intro conjI allI impI)
  assume "str_contains ''no-cache'' cc \<or> str_contains ''no-store'' cc"
  with assms show "is_cache_valid env headers = Inr False"
    by (simp add: is_cache_valid_def)
next
  fix ds stamp
  assume a: "\<not> str_contains ''no-cache'' cc \<and> \<not> str_contains ''no-store'' cc
            \<and> search_max_age cc = Some ds \<and> length ds \<le> int_max_str_digits
            \<and> headers ''cache-timestamp'' = Some stamp \<and> float_literal stamp"
  then have "search_max_age cc = Some ds" by blast
  from search_max_age_int [OF this] a have "py_int ds = Some (digits_value ds)" by simp
  with a assms show "is_cache_valid env headers
        = Inr (float_less_int (float_sub (time_time env) (float_value stamp)) (digits_value ds))"
    by (simp add: is_cache_valid_def)
next
  fix ds
  assume a: "\<not> str_contains ''no-cache'' cc \<and> \<not> str_contains ''no-store'' cc
            \<and> search_max_age cc = Some ds \<and> int_max_str_digits < length ds"
  then have "search_max_age cc = Some ds" by blast
  from search_max_age_int [OF this] a have "py_int ds = None" by simp
  with a assms show "is_cache_valid env headers = Inl ValueError"
    by (simp add: is_cache_valid_def)
next
  assume a: "\<not> str_contains ''no-cache'' cc \<and> \<not> str_contains ''no-store'' cc
            \<and> (search_max_age cc = None
                \<or> ((\<exists>ds. search_max_age cc = Some ds \<and> length ds \<le> int_max_str_digits)
                    \<and> headers ''cache-timestamp'' = None))"
  show "is_cache_valid env headers = Inr False"
  proof (cases "search_max_age cc")
    case None
    with a assms show ?thesis by (simp add: is_cache_valid_def)
  next
    case (Some ds)
    with a have le: "length ds \<le> int_max_str_digits" and ts: "headers ''cache-timestamp'' = None"
      by auto
    from search_max_age_int [OF Some] le have "py_int ds = Some (digits_value ds)" by simp
    with Some a assms ts show ?thesis by (simp add: is_cache_valid_def)
  qed
qed

text \<open>
  Claim C2 says that, without \<open>Expires\<close> and with \<open>Cache-Control\<close>, the verdict is invalid
  on \<open>no-cache\<close> or \<open>no-store\<close>, the test \<open>(now - cache-timestamp) < max-age\<close> when there are
  a \<open>max-age\<close> directive and a numeric timestamp, and invalid in every other case, so also
  when there is a directive and no timestamp. \<open>int(max_age_match.group(1))\<close> stands outside
  any \<open>try\<close>, as \<open>float(...)\<close> of claim C3 does, and \<open>int\<close> refuses more than 4300 digits:
  with \<open>Cache-Control: max-age=\<close> followed by 4301 digits and no timestamp the evaluator
  raises \<open>ValueError\<close>, whatever the clock and the date parser are.
\<close>

theorem is_cache_valid_long_max_age_raises:
  "is_cache_valid env [''Cache-Control'' \<mapsto> ''max-age='' @ replicate 4301 CHR ''1'']
     = Inl ValueError"
proof -
  let ?cc = "''max-age='' @ replicate 4301 CHR ''1''"
  let ?h = "[''Cache-Control'' \<mapsto> ?cc]"
  have nc: "\<not> str_contains ''no-cache'' ?cc" "\<not> str_contains ''no-store'' ?cc"
    by (rule not_str_contains [of "CHR ''n''"]; simp)+
  have ma: "search_max_age ?cc = Some (replicate 4301 CHR ''1'')"
    by (simp add: takeWhile_replicate is_digit_def in_range_def)
  have len: "int_max_str_digits < length (replicate 4301 CHR ''1'')"
    by (simp add: int_max_str_digits_def)
  have "?h ''Expires'' = None" "?h ''Cache-Control'' = Some ?cc" by simp_all
  from is_cache_valid_cache_control_cases [OF this, of env] nc ma len
  show ?thesis by blast
qed

text \<open>
  With a directive that converts, the verdict is the test on doubles: at \<open>time.time()\<close> =
  1793750400.0 and \<open>max-age=60\<close> a response stored 58.5 seconds ago is fresh, one stored 60
  seconds ago or 60.75 seconds ago is not.
\<close>

lemma is_cache_valid_max_age_examples:
  "is_cache_valid sample_clock
     [''Cache-Control'' \<mapsto> ''max-age=60'', ''cache-timestamp'' \<mapsto> ''1793750341.5''] = Inr True"
  "is_cache_valid sample_clock
     [''Cache-Control'' \<mapsto> ''max-age=60'', ''cache-timestamp'' \<mapsto> ''1793750340.0''] = Inr False"
  "is_cache_valid sample_clock
     [''Cache-Control'' \<mapsto> ''max-age=60'', ''cache-timestamp'' \<mapsto> ''1793750339.25''] = Inr False"
  "is_cache_valid sample_clock
     [''Cache-Control'' \<mapsto> ''no-store, max-age=60'', ''cache-timestamp'' \<mapsto> ''1793750341.5'']
     = Inr False"
  by code_simp+

text \<open>
  Claim C1 says the verdict is valid exactly when \<open>Expires\<close> parses and the current time is
  before the parsed time. A date with the zone \<open>-0000\<close> (or none) parses to a naive
  \<open>datetime\<close>; comparing the aware current time with it raises \<open>TypeError\<close>, which the
  handler turns into invalid. With \<open>Thu, 01 Jan 2099 00:00:00 -0000\<close> read in 2026 the
  value parses, the current time is before it, and the verdict is invalid.
\<close>

theorem is_cache_valid_naive_expires_counterexample:
  "\<not> (is_cache_valid naive_clock [''Expires'' \<mapsto> ''Thu, 01 Jan 2099 00:00:00 -0000''] = Inr True
        \<longleftrightarrow> expires_in_future naive_clock ''Thu, 01 Jan 2099 00:00:00 -0000'')"
  by (simp add: is_cache_valid_def expires_in_future_def naive_clock_def)

text \<open>
  Claim C1, amended: with an \<open>Expires\<close> header the verdict is valid exactly when the value
  parses to a date with a time zone and the current time is strictly before it; a date
  parsed without zone gives invalid, a parse that fails with \<open>TypeError\<close> or \<open>ValueError\<close>
  gives invalid, and the verdict does not depend on \<open>Cache-Control\<close>.
\<close>

theorem is_cache_valid_expires:
  assumes "headers ''Expires'' = Some expires_str"
  shows "(is_cache_valid env headers = Inr True
            \<longleftrightarrow> (\<exists>t. parsedate_to_datetime env expires_str = Inr (Aware t) \<and> utc_now env < t))
       \<and> ((\<exists>t. parsedate_to_datetime env expires_str = Inr (Naive t))
            \<longrightarrow> is_cache_valid env headers = Inr False)
       \<and> (parsedate_to_datetime env expires_str = Inl TypeError
            \<or> parsedate_to_datetime env expires_str = Inl ValueError
            \<longrightarrow> is_cache_valid env headers = Inr False)
       \<and> (\<forall>cc. is_cache_valid env (headers(''Cache-Control'' := cc)) = is_cache_valid env headers)"
proof -
  have eq: "is_cache_valid env headers =
          except_type_value
            (case parsedate_to_datetime env expires_str of
               Inl e \<Rightarrow> Inl e
             | Inr expires_time \<Rightarrow> datetime_less (Aware (utc_now env)) expires_time)"
    using assms by (simp add: is_cache_valid_def)
  have 1: "is_cache_valid env headers = Inr True
            \<longleftrightarrow> (\<exists>t. parsedate_to_datetime env expires_str = Inr (Aware t) \<and> utc_now env < t)"
  proof (cases "parsedate_to_datetime env expires_str")
    case (Inl e)
    then show ?thesis by (simp add: eq)
  next
    case (Inr d)
    then show ?thesis by (cases d) (simp_all add: eq)
  qed
  have 2: "(\<exists>t. parsedate_to_datetime env expires_str = Inr (Naive t))
            \<longrightarrow> is_cache_valid env headers = Inr False"
    by (auto simp: eq)
  have 3: "parsedate_to_datetime env expires_str = Inl TypeError
            \<or> parsedate_to_datetime env expires_str = Inl ValueError
            \<longrightarrow> is_cache_valid env headers = Inr False"
    by (auto simp: eq)
  have 4: "\<forall>cc. is_cache_valid env (headers(''Cache-Control'' := cc)) = is_cache_valid env headers"
    using assms by (simp add: is_cache_valid_def)
  from 1 2 3 4 show ?thesis by blast
qed

theorem is_cache_valid_expires_witness:
  "is_cache_valid (sample_clock\<lparr>utc_now := 1893455999000000\<rparr>)
     [''Expires'' \<mapsto> ''Tue, 01 Jan 2030 00:00:00 GMT''] = Inr True
   \<and> is_cache_valid (sample_clock\<lparr>utc_now := 1893456001000000\<rparr>)
     [''Expires'' \<mapsto> ''Tue, 01 Jan 2030 00:00:00 GMT''] \<noteq> Inr True
   \<and> is_cache_valid naive_clock [''Expires'' \<mapsto> ''Thu, 01 Jan 2099 00:00:00 -0000''] = Inr False
   \<and> is_cache_valid naive_clock [''Expires'' \<mapsto> ''soon''] = Inr False"
proof -
  let ?e = "''Tue, 01 Jan 2030 00:00:00 GMT''"
  have 1: "is_cache_valid (sample_clock\<lparr>utc_now := 1893455999000000\<rparr>) [''Expires'' \<mapsto> ?e] = Inr True"
    using is_cache_valid_expires [of "[''Expires'' \<mapsto> ?e]" ?e "sample_clock\<lparr>utc_now := 1893455999000000\<rparr>"]
    by (simp add: sample_clock_def)
  have 2: "is_cache_valid (sample_clock\<lparr>utc_now := 1893456001000000\<rparr>) [''Expires'' \<mapsto> ?e] \<noteq> Inr True"
    using is_cache_valid_expires [of "[''Expires'' \<mapsto> ?e]" ?e "sample_clock\<lparr>utc_now := 1893456001000000\<rparr>"]
    by (simp add: sample_clock_def)
  let ?n = "''Thu, 01 Jan 2099 00:00:00 -0000''"
  have 3: "is_cache_valid naive_clock [''Expires'' \<mapsto> ?n] = Inr False"
    using is_cache_valid_expires [of "[''Expires'' \<mapsto> ?n]" ?n naive_clock]
    by (simp add: naive_clock_def)
  have 4: "is_cache_valid naive_clock [''Expires'' \<mapsto> ''soon''] = Inr False"
    using is_cache_valid_expires [of "[''Expires'' \<mapsto> ''soon'']" "''soon''" naive_clock]
    by (simp add: naive_clock_def)
  from 1 2 3 4 show ?thesis by blast
qed

section \<open>Cache store: write, then read the headers\<close>

lemma universal_newlines_no_CR: "CR \<notin> set (universal_newlines s)"
  by (induction s rule: universal_newlines.induct) (auto simp: CR_def LF_def)

lemma no_blank_line_after_read: "split_once (CRLF @ CRLF) (universal_newlines s) = None"
proof (cases "split_once (CRLF @ CRLF) (universal_newlines s)")
  case None
  then show ?thesis .
next
  case (Some ab)
  obtain a b where "ab = (a, b)" by (cases ab)
  with Some have "split_once (CRLF @ CRLF) (universal_newlines s) = Some (a, b)" by simp
  then have "set (CRLF @ CRLF) \<subseteq> set (universal_newlines s)"
    by (rule split_once_set)
  then have "CR \<in> set (universal_newlines s)" by (auto simp: CRLF_def)
  with universal_newlines_no_CR show ?thesis by blast
qed

lemma read_text_no_blank_line:
  "read_text cd fs name = Inr content \<Longrightarrow> split_once (CRLF @ CRLF) content = None"
  by (auto simp: read_text_def no_blank_line_after_read split: option.splits sum.splits)

lemma extract_headers_from_cache_empty:
  "extract_headers_from_cache cd fs name = Map.empty"
proof (cases "read_text cd fs name")
  case (Inl e)
  then show ?thesis by (simp add: extract_headers_from_cache_def)
next
  case (Inr content)
  with read_text_no_blank_line [OF Inr] show ?thesis
    by (simp add: extract_headers_from_cache_def headers_of_content_def)
qed

lemma store_response_keeps_raw:
  "fst (store_response cd stamp fs name response) = fs(name \<mapsto> response)"
proof (cases "read_text cd (fs(name \<mapsto> response)) name")
  case (Inl e)
  then show ?thesis by (simp add: store_response_def)
next
  case (Inr content)
  with read_text_no_blank_line [OF Inr] show ?thesis
    by (simp add: store_response_def)
qed

text \<open>
  Claim C4 says that writing \<open>HTTP/1.1 200 OK\r\nContent-Type: text/plain\r\n\r\nhello\<close> and
  reading the headers back gives \<open>Content-Type: text/plain\<close> and a numeric
  \<open>cache-timestamp\<close>. Both the second pass of the write and \<open>extract_headers_from_cache\<close>
  read the file in text mode, where no \<open>\r\<close> reaches the program, and then split on
  \<open>\r\n\r\n\<close>: the split never has two parts. For every codec, file system, key and timestamp
  the file keeps the raw response with no timestamp line, and the dictionary read back has
  neither entry (it is empty for every file, by \<open>extract_headers_from_cache_empty\<close>).
\<close>

theorem store_then_extract_headers_empty:
  "fst (store_response cd stamp fs key plain_response) key = Some plain_response
   \<and> extract_headers_from_cache cd (fst (store_response cd stamp fs key plain_response)) key
        ''Content-Type'' = None
   \<and> extract_headers_from_cache cd (fst (store_response cd stamp fs key plain_response)) key
        ''cache-timestamp'' = None"
  by (simp add: store_response_keeps_raw extract_headers_from_cache_empty)

section \<open>Cache store: which lines become headers\<close>










section \<open>Prefetch scheduler: resolving candidates\<close>

lemma sample_page_hrefs:
  "findall_attr ''href='' sample_page = [''/c.png'', ''http://x.com/f'', ''javascript:void(0)'', ''#'']"
  by code_simp

lemma sample_page_srcs:
  "findall_attr ''src='' sample_page = [''//cdn.com/d.js'', ''e.png'']"
  by code_simp

lemma base_directory:
  "str_join ''/'' (butlast (str_split ''/'' ''http://ex.com/a/b.html'')) @ ''/'' = ''http://ex.com/a/''"
  by (simp add: str_split.simps)







end
